theory Spec2Isabelle
  imports Main
begin

section \<open>Data model of the vCenter scripts (main.py)\<close>

text \<open>
  The scripts talk to the platform through the vendor SDK's object model. What the
  scripts read and call is made explicit here: the inventory they iterate over, the
  replies of the calls they issue, and the successive values of \<open>task.info\<close> that
  the platform reports for a submitted task.

  Strings are byte strings (UTF-8): the pictographs that start most printed lines are
  written out as their bytes.
\<close>

definition check_mark :: string where
  "check_mark = [CHR 0xE2, CHR 0x9C, CHR 0x85]"

definition cross_mark :: string where
  "cross_mark = [CHR 0xE2, CHR 0x9D, CHR 0x8C]"

definition warning_sign :: string where
  "warning_sign = [CHR 0xE2, CHR 0x9A, CHR 0xA0, CHR 0xEF, CHR 0xB8, CHR 0x8F]"

definition electric_plug :: string where
  "electric_plug = [CHR 0xF0, CHR 0x9F, CHR 0x94, CHR 0x8C]"

definition power_symbol :: string where
  "power_symbol = [CHR 0xE2, CHR 0x8F, CHR 0xBB]"

definition reboot_arrows :: string where
  "reboot_arrows = [CHR 0xF0, CHR 0x9F, CHR 0x94, CHR 0x84]"

definition camera_flash :: string where
  "camera_flash = [CHR 0xF0, CHR 0x9F, CHR 0x93, CHR 0xB8]"

definition clipboard :: string where
  "clipboard = [CHR 0xF0, CHR 0x9F, CHR 0x93, CHR 0x8B]"

text \<open>\<open>class PowerAction(Enum)\<close>, with its \<open>.value\<close>. Python does not enforce the
  annotation \<open>action: PowerAction\<close>, and \<open>control_vm_power\<close> has a branch for any
  other value: \<open>OTHER s\<close> is such a value, \<open>s\<close> being its \<open>str()\<close>. \<open>action_str\<close>
  is what an f-string prints for the action.\<close>

datatype PowerAction = POWER_ON | POWER_OFF | REBOOT | OTHER string

fun action_value :: "PowerAction \<Rightarrow> string" where
  "action_value POWER_ON = ''power_on''"
| "action_value POWER_OFF = ''power_off''"
| "action_value REBOOT = ''reboot''"
| "action_value (OTHER s) = s"

fun action_str :: "PowerAction \<Rightarrow> string" where
  "action_str POWER_ON = ''PowerAction.POWER_ON''"
| "action_str POWER_OFF = ''PowerAction.POWER_OFF''"
| "action_str REBOOT = ''PowerAction.REBOOT''"
| "action_str (OTHER s) = s"

text \<open>\<open>vim.TaskInfo.State\<close> and the part of \<open>task.info\<close> that the scripts read:
  \<open>task.info.state\<close> and \<open>task.info.error.msg\<close> (\<open>error\<close> is \<open>None\<close> when the
  platform reports no fault).\<close>

datatype task_state = State_queued | State_running | State_success | State_error

record task_info =
  state :: task_state
  error :: "string option"

text \<open>The exceptions that can reach the scripts: Python's own \<open>IndexError\<close> and
  \<open>AttributeError\<close> (on the attribute named), and a fault raised by the SDK while it
  talks to the platform, with the text \<open>str(e)\<close> gives.\<close>

datatype exn = IndexError | AttributeError string | Fault string

fun str_of_exn :: "exn \<Rightarrow> string" where
  "str_of_exn IndexError = ''list index out of range''"
| "str_of_exn (AttributeError a) = [CHR 0x27] @ ''NoneType' object has no attribute '' @ [CHR 0x27] @ a @ [CHR 0x27]"
| "str_of_exn (Fault m) = m"

text \<open>A task handle. Every evaluation of \<open>task.info\<close> is one round trip to the
  platform; the \<open>k\<close>-th evaluation (counted from 0) either raises or yields the
  task's information at that moment.\<close>

type_synonym task = "nat \<Rightarrow> exn + task_info"

datatype power_state = poweredOn | poweredOff | suspended

record vm =
  vm_name :: string
  powerState :: power_state

text \<open>\<open>vim.vm.ConfigSpec\<close> with the fields \<open>create_vm\<close> sets; \<open>vmPathName\<close> is
  the one field of its \<open>files\<close>.\<close>

record ConfigSpec =
  name :: string
  memoryMB :: int
  numCPUs :: int
  guestId :: string
  vmPathName :: string

text \<open>The calls that change the platform, with the arguments the scripts pass:
  \<open>folder.CreateVM_Task(config, pool)\<close>, \<open>vm.PowerOn()\<close>, \<open>vm.PowerOff()\<close>,
  \<open>vm.CreateSnapshot_Task(name, description, memory, quiesce)\<close>.\<close>

datatype call =
    CreateVM_Task string ConfigSpec string
  | PowerOn vm
  | PowerOff vm
  | CreateSnapshot_Task vm string string bool bool

text \<open>What a run does, in order: a read of \<open>task.info\<close>, a call of \<open>time.sleep\<close>
  (no function of main.py makes one), a \<open>print\<close> of a line, a call that changes the
  platform.\<close>

datatype event = Poll | Sleep | Print string | Call call

text \<open>What a function of main.py returns: \<open>None\<close> or a task object.\<close>

datatype pyval = PyNone | PyTask task

text \<open>A datacenter, as far as \<open>create_vm\<close> reads it: its \<open>vmFolder\<close>, and the
  \<open>resourcePool\<close> of each child of its \<open>hostFolder\<close>, in order.\<close>

record datacenter =
  vmFolder :: string
  hostFolder :: "string list"

text \<open>An event of the platform's event manager, as far as
  \<open>monitor_recent_vm_events\<close> reads it. \<open>ev_vm\<close> is \<open>event.vm\<close> (\<open>None\<close> when the
  event has no such attribute or it is unset), with the answer of
  \<open>isinstance(event.vm, vim.event.VmEvent)\<close> and its \<open>name\<close>; \<open>is_power_event\<close> is
  the answer of \<open>isinstance(event, (VmPoweredOnEvent, VmPoweredOffEvent))\<close>;
  \<open>type_name\<close> is \<open>type(event).__name__\<close>; \<open>createdTime\<close> is given as printed.\<close>

record vm_argument =
  arg_is_VmEvent :: bool
  arg_name :: string

record vc_event =
  createdTime :: string
  ev_vm :: "vm_argument option"
  userName :: string
  is_power_event :: bool
  type_name :: string

text \<open>The service instance \<open>si\<close> of a connected session: the views of the inventory
  that the scripts iterate over (the virtual machines, the names of the datastores,
  the children of the root folder), the platform's reply to each call that changes it
  (an exception, or the task it started), and its reply to \<open>QueryEvents\<close>.\<close>

record vcenter =
  vm_view :: "vm list"
  datastore_view :: "string list"
  childEntity :: "datacenter list"
  submit :: "call \<Rightarrow> exn + task"
  QueryEvents :: "exn + vc_event list"

section \<open>The task-completion wait\<close>

text \<open>
  \<^verbatim>\<open>
  while task.info.state not in [vim.TaskInfo.State.success, vim.TaskInfo.State.error]:
      continue
  \<close>
  \<open>k\<close> is the number of reads of \<open>task.info\<close> made so far. The result is the
  exception that a read raised, if any, and the number of reads made when the loop is
  left. A loop that never ends has the value \<open>None\<close>.
\<close>

partial_function (option) wait_loop :: "task \<Rightarrow> nat \<Rightarrow> ((exn + unit) \<times> nat) option" where
  "wait_loop t k =
     (case t k of
        Inl e \<Rightarrow> Some (Inl e, Suc k)
      | Inr i \<Rightarrow>
          if state i \<noteq> State_success \<and> state i \<noteq> State_error
          then wait_loop t (Suc k)
          else Some (Inr (), Suc k))"

text \<open>
  \<^verbatim>\<open>
  if task.info.state == vim.TaskInfo.State.success:
      print(ok)
  else:
      print(f"{failed}{task.info.error.msg}")
  \<close>
  The state is read again, and on the other branch \<open>task.info\<close> is read a third time
  for the fault's message.
\<close>

definition report_task :: "string \<Rightarrow> string \<Rightarrow> task \<Rightarrow> nat \<Rightarrow> (exn + unit) \<times> nat \<times> event list" where
  "report_task ok failed t k =
     (case t k of
        Inl e \<Rightarrow> (Inl e, Suc k, [])
      | Inr i \<Rightarrow>
          if state i = State_success then (Inr (), Suc k, [Print ok])
          else
            (case t (Suc k) of
               Inl e \<Rightarrow> (Inl e, Suc (Suc k), [])
             | Inr i' \<Rightarrow>
                 (case error i' of
                    None \<Rightarrow> (Inl (AttributeError ''msg''), Suc (Suc k), [])
                  | Some m \<Rightarrow> (Inr (), Suc (Suc k), [Print (failed @ m)]))))"

text \<open>The loop and the report together, on a task just submitted (no read made yet):
  the idiom that follows the submission in \<open>create_vm\<close>, \<open>take_snapshot\<close>,
  \<open>revert_to_snapshot\<close>, \<open>clone_vm_from_snapshot\<close> and \<open>clone_vm_from_template\<close>
  (\<open>demo_snapshot\<close> has the loop without the report), with the two lines it prints
  as parameters.\<close>

definition wait_for_task :: "string \<Rightarrow> string \<Rightarrow> task \<Rightarrow> ((exn + unit) \<times> event list) option" where
  "wait_for_task ok failed t =
     (case wait_loop t 0 of
        None \<Rightarrow> None
      | Some (Inl e, k) \<Rightarrow> Some (Inl e, replicate k Poll)
      | Some (Inr u, k) \<Rightarrow>
          (case report_task ok failed t k of
             (r, k', out) \<Rightarrow> Some (r, replicate k' Poll @ out)))"

text \<open>A task given by its first observations and the one that every later read
  yields.\<close>

definition task_of :: "(exn + task_info) list \<Rightarrow> (exn + task_info) \<Rightarrow> task" where
  "task_of obs final k = (if k < length obs then obs ! k else final)"

definition info :: "task_state \<Rightarrow> string option \<Rightarrow> exn + task_info" where
  "info s m = Inr \<lparr>state = s, error = m\<rparr>"

text \<open>A read that leaves the loop running: it raises nothing and reports a state
  that is neither success nor error.\<close>

fun pending :: "exn + task_info \<Rightarrow> bool" where
  "pending (Inl e) = False"
| "pending (Inr i) = (state i \<noteq> State_success \<and> state i \<noteq> State_error)"

text \<open>Two reads of \<open>task.info\<close> with nothing between them.\<close>

fun hot_spin :: "event list \<Rightarrow> bool" where
  "hot_spin (Poll # Poll # es) = True"
| "hot_spin (e # es) = hot_spin es"
| "hot_spin [] = False"

text \<open>What holds of a loop that has returned \<open>y\<close> when started after \<open>k\<close> reads.\<close>

definition loop_post :: "task \<Rightarrow> nat \<Rightarrow> (exn + unit) \<times> nat \<Rightarrow> bool" where
  "loop_post t k y \<longleftrightarrow>
     k < snd y \<and> \<not> pending (t (snd y - 1)) \<and>
     (\<forall>j. k \<le> j \<and> j < snd y - 1 \<longrightarrow> pending (t j)) \<and>
     fst y = (case t (snd y - 1) of Inl e \<Rightarrow> Inl e | Inr i \<Rightarrow> Inr ())"

section \<open>The operations\<close>

text \<open>\<open>f"'{s}'"\<close>\<close>

definition quoted :: "string \<Rightarrow> string" where
  "quoted s = [CHR 0x27] @ s @ [CHR 0x27]"

text \<open>\<open>str\<close> of an \<open>int\<close>, as an f-string prints it.\<close>

fun str_of_nat :: "nat \<Rightarrow> string" where
  "str_of_nat n =
     (if n < 10 then [char_of (48 + n)]
      else str_of_nat (n div 10) @ [char_of (48 + n mod 10)])"

definition str_of_int :: "int \<Rightarrow> string" where
  "str_of_int i = (if i < 0 then ''-'' @ str_of_nat (nat (- i)) else str_of_nat (nat i))"

subsection \<open>\<open>get_first_datastore\<close>, \<open>vm_exists\<close>\<close>

definition get_first_datastore :: "vcenter \<Rightarrow> string option \<times> event list" where
  "get_first_datastore si =
     (case datastore_view si of
        d # ds \<Rightarrow> (Some d, [Print (check_mark @ '' Found datastore: '' @ d)])
      | [] \<Rightarrow> (None, [Print (cross_mark @ '' No datastore found.'')]))"

fun vm_exists_for :: "string \<Rightarrow> vm list \<Rightarrow> bool" where
  "vm_exists_for n [] = False"
| "vm_exists_for n (v # rest) = (if vm_name v = n then True else vm_exists_for n rest)"

definition vm_exists :: "vcenter \<Rightarrow> string \<Rightarrow> bool" where
  "vm_exists si n = vm_exists_for n (vm_view si)"

subsection \<open>\<open>create_vm\<close>\<close>

text \<open>The body of the \<open>try\<close>: \<open>Inl e\<close> when it raises \<open>e\<close>, \<open>Inr v\<close> when it
  returns \<open>v\<close>, with what it has done until then.\<close>

definition create_vm_try :: "vcenter \<Rightarrow> string \<Rightarrow> ((exn + pyval) \<times> event list) option" where
  "create_vm_try si n =
     (if vm_exists si n
      then Some (Inr PyNone,
             [Print (warning_sign @ '' VM '' @ quoted n @ '' already exists. Skipping creation.'')])
      else
        (case childEntity si of
           [] \<Rightarrow> Some (Inl IndexError, [])
         | dc # dcs \<Rightarrow>
             (case hostFolder dc of
                [] \<Rightarrow> Some (Inl IndexError, [])
              | resource_pool # pools \<Rightarrow>
                  (case get_first_datastore si of
                     (None, out) \<Rightarrow> Some (Inl (AttributeError ''name''), out)
                   | (Some ds, out) \<Rightarrow>
                       (let vm_config = \<lparr>name = n, memoryMB = 128, numCPUs = 1,
                              guestId = ''otherGuest'', vmPathName = ''['' @ ds @ '']''\<rparr>;
                            c = CreateVM_Task (vmFolder dc) vm_config resource_pool;
                            tr = out @ [Print (''Creating VM: '' @ n), Call c]
                        in case submit si c of
                             Inl e \<Rightarrow> Some (Inl e, tr)
                           | Inr task \<Rightarrow>
                               (case wait_for_task
                                       (check_mark @ '' VM '' @ quoted n @ '' created successfully.'')
                                       (cross_mark @ '' VM creation failed: '') task of
                                  None \<Rightarrow> None
                                | Some (Inl e, w) \<Rightarrow> Some (Inl e, tr @ w)
                                | Some (Inr u, w) \<Rightarrow> Some (Inr (PyTask task), tr @ w)))))))"

text \<open>With the handler \<open>except Exception as e\<close> and the \<open>return None\<close> after it.\<close>

definition create_vm :: "vcenter \<Rightarrow> string \<Rightarrow> (pyval \<times> event list) option" where
  "create_vm si n =
     (case create_vm_try si n of
        None \<Rightarrow> None
      | Some (Inr v, tr) \<Rightarrow> Some (v, tr)
      | Some (Inl e, tr) \<Rightarrow>
          Some (PyNone, tr @ [Print (cross_mark @ '' Error during VM creation: '' @ str_of_exn e)]))"

subsection \<open>\<open>control_vm_power\<close>\<close>

text \<open>The body of the \<open>try\<close> for the machine found: the exception it raised, if any,
  and what it has done. The calls return tasks that the function does not wait for.\<close>

definition power_try :: "vcenter \<Rightarrow> vm \<Rightarrow> string \<Rightarrow> PowerAction \<Rightarrow> exn option \<times> event list" where
  "power_try si v n action =
     (case action of
        POWER_ON \<Rightarrow>
          if powerState v \<noteq> poweredOn
          then (let tr = [Print (electric_plug @ '' Powering ON VM: '' @ n), Call (PowerOn v)]
                in case submit si (PowerOn v) of Inl e \<Rightarrow> (Some e, tr) | Inr task \<Rightarrow> (None, tr))
          else (None, [Print (warning_sign @ '' VM '' @ quoted n @ '' is already powered on.'')])
      | POWER_OFF \<Rightarrow>
          if powerState v \<noteq> poweredOff
          then (let tr = [Print (power_symbol @ '' Powering OFF VM: '' @ n), Call (PowerOff v)]
                in case submit si (PowerOff v) of Inl e \<Rightarrow> (Some e, tr) | Inr task \<Rightarrow> (None, tr))
          else (None, [Print (warning_sign @ '' VM '' @ quoted n @ '' is already powered off.'')])
      | REBOOT \<Rightarrow>
          if powerState v = poweredOn
          then (let tr = [Print (reboot_arrows @ '' Rebooting VM: '' @ n), Call (PowerOff v)]
                in case submit si (PowerOff v) of
                     Inl e \<Rightarrow> (Some e, tr)
                   | Inr task \<Rightarrow>
                       (case submit si (PowerOn v) of
                          Inl e \<Rightarrow> (Some e, tr @ [Call (PowerOn v)])
                        | Inr task' \<Rightarrow> (None, tr @ [Call (PowerOn v)])))
          else (None, [Print (warning_sign @ '' Cannot reboot. VM '' @ quoted n @ '' is not powered on.'')])
      | OTHER s \<Rightarrow> (None, [Print (cross_mark @ '' Unknown action: '' @ action_str action)]))"

text \<open>The \<open>for\<close> loop over the view: the first machine of that name is acted on, and
  every path through the \<open>try\<close> and its handler ends in a bare \<open>return\<close>. The handler
  reads \<open>action.value\<close>; it runs only after a call has raised, so only for a member of
  the enumeration.\<close>

fun control_vm_power_for :: "vcenter \<Rightarrow> string \<Rightarrow> PowerAction \<Rightarrow> vm list \<Rightarrow> pyval \<times> event list" where
  "control_vm_power_for si n action [] =
     (PyNone, [Print (cross_mark @ '' VM '' @ quoted n @ '' not found.'')])"
| "control_vm_power_for si n action (v # rest) =
     (if vm_name v = n
      then (case power_try si v n action of
              (None, tr) \<Rightarrow> (PyNone, tr)
            | (Some e, tr) \<Rightarrow>
                (PyNone, tr @ [Print (cross_mark @ '' Failed to '' @ action_value action @ '' VM ''
                                       @ quoted n @ '': '' @ str_of_exn e)]))
      else control_vm_power_for si n action rest)"

definition control_vm_power :: "vcenter \<Rightarrow> string \<Rightarrow> PowerAction \<Rightarrow> pyval \<times> event list" where
  "control_vm_power si n action = control_vm_power_for si n action (vm_view si)"

subsection \<open>\<open>take_snapshot\<close>\<close>

fun take_snapshot_for :: "vcenter \<Rightarrow> string \<Rightarrow> string \<Rightarrow> string \<Rightarrow> vm list \<Rightarrow> (pyval \<times> event list) option" where
  "take_snapshot_for si n snapshot_name description [] =
     Some (PyNone, [Print (cross_mark @ '' VM '' @ quoted n @ '' not found.'')])"
| "take_snapshot_for si n snapshot_name description (v # rest) =
     (if vm_name v = n
      then (let c = CreateSnapshot_Task v snapshot_name description False False;
                tr = [Print (camera_flash @ '' Taking snapshot of VM: '' @ n), Call c]
            in case submit si c of
                 Inl e \<Rightarrow>
                   Some (PyNone, tr @ [Print (cross_mark @ '' Failed to take snapshot: '' @ str_of_exn e)])
               | Inr task \<Rightarrow>
                   (case wait_for_task
                           (check_mark @ '' Snapshot '' @ quoted snapshot_name @ '' created successfully.'')
                           (cross_mark @ '' Snapshot creation failed: '') task of
                      None \<Rightarrow> None
                    | Some (Inl e, w) \<Rightarrow>
                        Some (PyNone, tr @ w @
                                [Print (cross_mark @ '' Failed to take snapshot: '' @ str_of_exn e)])
                    | Some (Inr u, w) \<Rightarrow> Some (PyNone, tr @ w)))
      else take_snapshot_for si n snapshot_name description rest)"

definition take_snapshot :: "vcenter \<Rightarrow> string \<Rightarrow> string \<Rightarrow> string \<Rightarrow> (pyval \<times> event list) option" where
  "take_snapshot si n snapshot_name description =
     take_snapshot_for si n snapshot_name description (vm_view si)"

subsection \<open>\<open>monitor_recent_vm_events\<close>\<close>

text \<open>The five lines printed for one event, \<open>event.vm\<close> being \<open>a\<close>.\<close>

definition event_lines :: "vc_event \<Rightarrow> vm_argument \<Rightarrow> event list" where
  "event_lines ev a =
     [Print (''Time: '' @ createdTime ev),
      Print (''VM: '' @ arg_name a),
      Print (''User: '' @ userName ev),
      Print (''Event: '' @ type_name ev),
      Print (replicate 40 (CHR ''-''))]"

text \<open>The \<open>for\<close> loop over the events, from the value of \<open>count\<close> before it: the
  value of \<open>count\<close> after it, and the lines printed.\<close>

fun events_for :: "int \<Rightarrow> vc_event list \<Rightarrow> int \<Rightarrow> int \<times> event list" where
  "events_for max_events [] count = (count, [])"
| "events_for max_events (ev # evs) count =
     (case ev_vm ev of
        None \<Rightarrow> events_for max_events evs count
      | Some a \<Rightarrow>
          if arg_is_VmEvent a
          then (if is_power_event ev
                then (if count + 1 \<ge> max_events then (count + 1, event_lines ev a)
                      else (case events_for max_events evs (count + 1) of
                              (c, tr) \<Rightarrow> (c, event_lines ev a @ tr)))
                else events_for max_events evs count)
          else events_for max_events evs count)"

text \<open>\<open>si\<close> is \<open>None\<close> when there is no connection.\<close>

definition monitor_recent_vm_events :: "vcenter option \<Rightarrow> int \<Rightarrow> pyval \<times> event list" where
  "monitor_recent_vm_events si max_events =
     (case si of
        None \<Rightarrow> (PyNone, [Print ''No connection to vCenter.''])
      | Some s \<Rightarrow>
          (let header = Print ([CHR 0x0A] @ clipboard @ '' Recent VM Power Events (up to ''
                                @ str_of_int max_events @ ''):'')
           in case QueryEvents s of
                Inl e \<Rightarrow>
                  (PyNone, [header, Print (cross_mark @ '' Failed to retrieve events: '' @ str_of_exn e)])
              | Inr evs \<Rightarrow>
                  (case events_for max_events evs 0 of
                     (count, tr) \<Rightarrow>
                       (PyNone, header # tr @
                          (if count = 0 then [Print ''No recent VM power events found.''] else [])))))"

text \<open>The number of events a run has printed: each ends in one line of forty
  dashes, and no other line of the function is one.\<close>

definition events_printed :: "event list \<Rightarrow> nat" where
  "events_printed tr = count_list tr (Print (replicate 40 (CHR ''-'')))"

text \<open>The calls of a run that change the platform.\<close>

fun calls_of :: "event list \<Rightarrow> call list" where
  "calls_of [] = []"
| "calls_of (Call c # es) = c # calls_of es"
| "calls_of (e # es) = calls_of es"

section \<open>A small inventory to run the operations on\<close>

text \<open>Two machines with the names the demos of main.py use, one running and one
  switched off; a platform that refuses the power calls, starts a creation that
  succeeds and a snapshot that fails; one power-on event in the event log.\<close>

definition vm_on :: vm where
  "vm_on = \<lparr>vm_name = ''Shital_TestVM'', powerState = poweredOn\<rparr>"

definition vm_off :: vm where
  "vm_off = \<lparr>vm_name = ''Shital_Test_snapshot_VM'', powerState = poweredOff\<rparr>"

fun demo_submit :: "call \<Rightarrow> exn + task" where
  "demo_submit (CreateVM_Task folder config pool) =
     Inr (task_of [info State_queued None] (info State_success None))"
| "demo_submit (CreateSnapshot_Task v snapshot_name description memory quiesce) =
     Inr (task_of [info State_running None] (info State_error (Some ''insufficient resources'')))"
| "demo_submit (PowerOn v) = Inl (Fault ''connection refused'')"
| "demo_submit (PowerOff v) = Inl (Fault ''connection refused'')"

fun refuse_submit :: "call \<Rightarrow> exn + task" where
  "refuse_submit c = Inl (Fault ''connection refused'')"

definition demo_event :: vc_event where
  "demo_event = \<lparr>createdTime = ''2024-01-01 00:00:00'',
                  ev_vm = Some \<lparr>arg_is_VmEvent = True, arg_name = ''Shital_TestVM''\<rparr>,
                  userName = ''user'', is_power_event = True, type_name = ''VmPoweredOnEvent''\<rparr>"

definition demo_si :: vcenter where
  "demo_si = \<lparr>vm_view = [vm_on, vm_off], datastore_view = [''LocalDS_0''],
               childEntity = [\<lparr>vmFolder = ''vm'', hostFolder = [''Resources'']\<rparr>],
               submit = demo_submit, QueryEvents = Inr [demo_event]\<rparr>"

text \<open>The same inventory on a platform that refuses every call.\<close>

definition demo_si_down :: vcenter where
  "demo_si_down = \<lparr>vm_view = [vm_on, vm_off], datastore_view = [''LocalDS_0''],
               childEntity = [\<lparr>vmFolder = ''vm'', hostFolder = [''Resources'']\<rparr>],
               submit = refuse_submit, QueryEvents = Inr [demo_event]\<rparr>"

section \<open>Properties of the wait\<close>

lemma wait_loop_stop:
  "\<not> pending (t k) \<Longrightarrow>
   wait_loop t k = Some (case t k of Inl e \<Rightarrow> Inl e | Inr i \<Rightarrow> Inr (), Suc k)"
  by (subst wait_loop.simps) (auto split: sum.splits)

lemma wait_loop_step: "pending (t k) \<Longrightarrow> wait_loop t k = wait_loop t (Suc k)"
  by (subst wait_loop.simps) (auto split: sum.splits)

lemma wait_loop_skip:
  "(\<And>j. k \<le> j \<Longrightarrow> j < k + d \<Longrightarrow> pending (t j)) \<Longrightarrow> wait_loop t k = wait_loop t (k + d)"
proof (induction d arbitrary: k)
  case 0
  show ?case by simp
next
  case (Suc d)
  have "wait_loop t k = wait_loop t (Suc k)"
    using Suc.prems [of k] by (simp add: wait_loop_step)
  also have "\<dots> = wait_loop t (Suc k + d)"
    using Suc.prems by (intro Suc.IH) simp_all
  finally show ?case by simp
qed

lemma wait_loop_first:
  assumes "\<And>j. j < n \<Longrightarrow> pending (t j)" and "\<not> pending (t n)"
  shows "wait_loop t 0 = Some (case t n of Inl e \<Rightarrow> Inl e | Inr i \<Rightarrow> Inr (), Suc n)"
proof -
  have "wait_loop t 0 = wait_loop t (0 + n)"
    using assms(1) by (intro wait_loop_skip) simp
  then show ?thesis using wait_loop_stop [of t n] assms(2) by simp
qed

lemma wait_loop_returns_aux:
  assumes "wait_loop t k = Some y"
  shows "loop_post t k y"
proof (rule wait_loop.raw_induct [where P = loop_post, OF _ assms])
  fix lp :: "task \<Rightarrow> nat \<Rightarrow> ((exn + unit) \<times> nat) option" and t k y
  assume IH: "\<And>t k y. lp t k = Some y \<Longrightarrow> loop_post t k y"
    and eq: "(case t k of Inl e \<Rightarrow> Some (Inl e, Suc k)
        | Inr i \<Rightarrow> if state i \<noteq> State_success \<and> state i \<noteq> State_error then lp t (Suc k)
                   else Some (Inr (), Suc k)) = Some y"
  show "loop_post t k y"
  proof (cases "pending (t k)")
    case True
    then have "lp t (Suc k) = Some y"
      using eq by (auto split: sum.splits)
    from IH [OF this] have *: "Suc k < snd y" "\<not> pending (t (snd y - 1))"
      "\<forall>j. Suc k \<le> j \<and> j < snd y - 1 \<longrightarrow> pending (t j)"
      "fst y = (case t (snd y - 1) of Inl e \<Rightarrow> Inl e | Inr i \<Rightarrow> Inr ())"
      by (simp_all add: loop_post_def)
    have "pending (t j)" if "k \<le> j" "j < snd y - 1" for j
      using that True *(3) by (cases "j = k") auto
    with * show ?thesis by (auto simp: loop_post_def)
  next
    case False
    then have "y = (case t k of Inl e \<Rightarrow> Inl e | Inr i \<Rightarrow> Inr (), Suc k)"
      using eq by (auto split: sum.splits)
    with False show ?thesis by (auto simp: loop_post_def)
  qed
qed

lemma wait_loop_returns:
  assumes "wait_loop t k = Some (r, m)"
  shows "k < m" and "\<not> pending (t (m - 1))" and "\<And>j. k \<le> j \<Longrightarrow> j < m - 1 \<Longrightarrow> pending (t j)"
    and "r = (case t (m - 1) of Inl e \<Rightarrow> Inl e | Inr i \<Rightarrow> Inr ())"
  using wait_loop_returns_aux [OF assms] by (simp_all add: loop_post_def)

lemma wait_for_task_first:
  assumes "\<And>j. j < n \<Longrightarrow> pending (t j)" and "\<not> pending (t n)"
  shows "wait_for_task ok failed t =
     (case t n of
        Inl e \<Rightarrow> Some (Inl e, replicate (Suc n) Poll)
      | Inr i \<Rightarrow> (case report_task ok failed t (Suc n) of
                    (r, k', out) \<Rightarrow> Some (r, replicate k' Poll @ out)))"
  using wait_loop_first [where t = t and n = n, OF assms] by (simp add: wait_for_task_def split: sum.splits)

lemma count_list_polls: "Poll \<notin> set out \<Longrightarrow> count_list (replicate p Poll @ out) Poll = p"
  by (induction p) (simp_all add: count_list_0_iff)

lemma report_task_shape:
  "report_task ok failed t k = (r, k', out) \<Longrightarrow>
   (k' = Suc k \<or> k' = Suc (Suc k)) \<and> (out = [] \<or> (\<exists>s. out = [Print s]))"
  by (auto simp: report_task_def split: sum.splits if_splits option.splits)

lemma wait_for_task_shape:
  assumes "wait_for_task ok failed t = Some (r, tr)"
  shows "\<exists>p out. tr = replicate p Poll @ out \<and> (out = [] \<or> (\<exists>s. out = [Print s]))"
proof (cases "wait_loop t 0")
  case None
  with assms show ?thesis by (simp add: wait_for_task_def)
next
  case (Some y)
  obtain r0 k where y: "y = (r0, k)" by (cases y)
  show ?thesis
  proof (cases r0)
    case (Inl e)
    with Some y assms have "tr = replicate k Poll @ []" by (simp add: wait_for_task_def)
    then show ?thesis by blast
  next
    case (Inr u)
    obtain r' k' out where rep: "report_task ok failed t k = (r', k', out)"
      by (cases "report_task ok failed t k")
    with Some y Inr assms have "tr = replicate k' Poll @ out" by (simp add: wait_for_task_def)
    with report_task_shape [OF rep] show ?thesis by blast
  qed
qed

lemma hot_spin_polls: "2 \<le> p \<Longrightarrow> hot_spin (replicate p Poll @ out)"
proof -
  assume "2 \<le> p"
  then obtain q where "p = Suc (Suc q)" by (metis add_2_eq_Suc le_Suc_ex)
  then show ?thesis by simp
qed

section \<open>The wait on a task that succeeds or fails\<close>

text \<open>
  C1 (as amended). The task reports a state that is neither success nor error on its
  first \<open>n\<close> reads and success on the next. The loop is left after that read, read
  \<open>n\<close>; the \<open>if\<close> that follows reads the state once more, and when that read
  reports success as well, the line \<open>ok\<close> is printed, once, after \<open>n + 2\<close> reads of
  the task and nothing else. The wait raises nothing.
\<close>

theorem wait_succeeded_reads_state_again:
  assumes "\<And>j. j < n \<Longrightarrow> pending (t j)"
    and "t n = Inr i" and "state i = State_success"
    and "t (Suc n) = Inr i'" and "state i' = State_success"
  shows "wait_for_task ok failed t = Some (Inr (), replicate (n + 2) Poll @ [Print ok])"
proof -
  have "\<not> pending (t n)" using assms(2,3) by simp
  from wait_for_task_first [where t = t and n = n, OF assms(1) this] show ?thesis
    using assms(2-5) by (simp add: report_task_def)
qed

theorem wait_succeeded_reads_state_again_witness:
  "wait_for_task ''done'' ''failed: ''
     (task_of [info State_queued None, info State_running None] (info State_success None))
   = Some (Inr (), [Poll, Poll, Poll, Poll, Print ''done''])"
proof -
  let ?t = "task_of [info State_queued None, info State_running None] (info State_success None)"
  have p: "\<And>j. j < 2 \<Longrightarrow> pending (?t j)"
    by (auto simp: task_of_def info_def less_Suc_eq numeral_2_eq_2)
  have a: "?t 2 = Inr \<lparr>state = State_success, error = None\<rparr>"
    and b: "?t (Suc 2) = Inr \<lparr>state = State_success, error = None\<rparr>"
    by (simp_all add: task_of_def info_def)
  show ?thesis
    using wait_succeeded_reads_state_again [where n = 2 and t = ?t and ok = "''done''" and failed = "''failed: ''", OF p a _ b]
    by (simp add: numeral_eq_Suc)
qed

text \<open>
  C1 as stated fails: on a task that reports success from its first read on, the line
  is not printed right after the read that saw success. The state is read a second
  time first.
\<close>

theorem wait_succeeded_extra_poll:
  "wait_for_task ''done'' ''failed: '' (task_of [] (info State_success None))
     = Some (Inr (), [Poll, Poll, Print ''done''])
   \<and> wait_for_task ''done'' ''failed: '' (task_of [] (info State_success None))
     \<noteq> Some (Inr (), [Poll, Print ''done''])"
  by (simp add: wait_for_task_def report_task_def task_of_def info_def wait_loop.simps)

text \<open>
  C2. The task reports a state that is neither success nor error on its first \<open>n\<close>
  reads, and from then on the error state with the fault message \<open>reason\<close>. The wait
  prints one line, the prefix of the call site followed by \<open>reason\<close> as the platform
  gave it, after three more reads (the loop's, the \<open>if\<close>'s, and the one for the
  message).
\<close>

theorem wait_failed_reports_reason:
  assumes "\<And>j. j < n \<Longrightarrow> pending (t j)"
    and "\<And>j. n \<le> j \<Longrightarrow> j \<le> n + 2 \<Longrightarrow> t j = info State_error (Some reason)"
  shows "wait_for_task ok failed t = Some (Inr (), replicate (n + 3) Poll @ [Print (failed @ reason)])"
proof -
  have e: "t n = info State_error (Some reason)" "t (Suc n) = info State_error (Some reason)"
    "t (Suc (Suc n)) = info State_error (Some reason)"
    using assms(2) by simp_all
  then have "\<not> pending (t n)" by (simp add: info_def)
  from wait_for_task_first [where t = t and n = n, OF assms(1) this] show ?thesis
    using e by (simp add: report_task_def info_def numeral_3_eq_3)
qed

theorem wait_failed_reports_reason_witness:
  "wait_for_task ''done'' ''failed: ''
     (task_of [info State_running None] (info State_error (Some ''insufficient resources'')))
   = Some (Inr (), [Poll, Poll, Poll, Poll, Print ''failed: insufficient resources''])"
proof -
  let ?t = "task_of [info State_running None] (info State_error (Some ''insufficient resources''))"
  have p: "\<And>j. j < 1 \<Longrightarrow> pending (?t j)"
    by (auto simp: task_of_def info_def)
  have a: "\<And>j. 1 \<le> j \<Longrightarrow> j \<le> 1 + 2 \<Longrightarrow> ?t j = info State_error (Some ''insufficient resources'')"
    by (auto simp: task_of_def)
  show ?thesis
    using wait_failed_reports_reason [where n = 1 and t = ?t and reason = "''insufficient resources''" and ok = "''done''" and failed = "''failed: ''", OF p a]
    by (simp add: numeral_eq_Suc)
qed

section \<open>The wait when a read fails, and when none settles\<close>

text \<open>
  Whatever the task does before, a read that raises ends the wait: when read \<open>k\<close>
  raises, the wait returns after at most \<open>k + 1\<close> reads.
\<close>

lemma wait_read_error_returns:
  assumes "t k = Inl e"
  shows "\<exists>r tr. wait_for_task ok failed t = Some (r, tr) \<and> count_list tr Poll \<le> Suc k \<and>
           (count_list tr Poll = Suc k \<longrightarrow> r = Inl e \<and> tr = replicate (Suc k) Poll)"
proof -
  define m where "m = (LEAST j. \<not> pending (t j))"
  have nk: "\<not> pending (t k)" using assms by simp
  then have nm: "\<not> pending (t m)" unfolding m_def by (rule LeastI)
  have mk: "m \<le> k" unfolding m_def using nk by (rule Least_le)
  have pm: "\<And>j. j < m \<Longrightarrow> pending (t j)"
    unfolding m_def using not_less_Least by blast
  note w = wait_for_task_first [where t = t and n = m and ok = ok and failed = failed, OF pm nm]
  show ?thesis
  proof (cases "t m")
    case (Inl e')
    with w have "wait_for_task ok failed t = Some (Inl e', replicate (Suc m) Poll)" by simp
    moreover have "m = k \<Longrightarrow> e' = e" using Inl assms by simp
    ultimately show ?thesis using mk by (auto simp: count_list_polls [where out = "[]", simplified])
  next
    case (Inr i)
    then have "m \<noteq> k" using assms by auto
    with mk have m1: "Suc m \<le> k" by simp
    obtain r k' out where rep: "report_task ok failed t (Suc m) = (r, k', out)"
      by (cases "report_task ok failed t (Suc m)")
    with w Inr have wt: "wait_for_task ok failed t = Some (r, replicate k' Poll @ out)" by simp
    from report_task_shape [OF rep] have np: "Poll \<notin> set out" by auto
    have cnt: "count_list (replicate k' Poll @ out) Poll = k'" using np by (rule count_list_polls)
    consider (a) "Suc m = k" | (b) "Suc (Suc m) = k" | (c) "Suc (Suc (Suc m)) \<le> k"
      using m1 by linarith
    then have "k' \<le> Suc k \<and> (k' = Suc k \<longrightarrow> r = Inl e \<and> out = [])"
    proof cases
      case a
      then have "t (Suc m) = Inl e" using assms by simp
      with rep a show ?thesis by (auto simp: report_task_def)
    next
      case b
      then have "t (Suc (Suc m)) = Inl e" using assms by simp
      with rep b show ?thesis
        by (auto simp: report_task_def split: sum.splits if_splits)
    next
      case c
      with report_task_shape [OF rep] show ?thesis by auto
    qed
    with wt cnt show ?thesis by auto
  qed
qed

text \<open>
  C3. The task reports a state that is neither success nor error on its first \<open>n\<close>
  reads. When the next read, made by the loop, raises \<open>e\<close>, the wait returns the
  exception \<open>e\<close> at once: that read is its last, and it prints nothing. The same
  holds of the two reads made after the loop: when the loop has seen success or error
  at read \<open>n\<close> and the read of the \<open>if\<close> raises \<open>e\<close>, and when that read has
  reported a state other than success and the read for the fault's message raises
  \<open>e\<close>. In each case the wait returns; it does not read the task again.
\<close>

theorem wait_surfaces_read_error:
  assumes "\<And>j. j < n \<Longrightarrow> pending (t j)"
  shows "(t n = Inl e \<longrightarrow>
            wait_for_task ok failed t = Some (Inl e, replicate (Suc n) Poll))
       \<and> (\<not> pending (t n) \<and> (\<exists>i. t n = Inr i) \<and> t (Suc n) = Inl e \<longrightarrow>
            wait_for_task ok failed t = Some (Inl e, replicate (n + 2) Poll))
       \<and> (\<not> pending (t n) \<and> (\<exists>i. t n = Inr i) \<and>
          (\<exists>i'. t (Suc n) = Inr i' \<and> state i' \<noteq> State_success) \<and> t (n + 2) = Inl e \<longrightarrow>
            wait_for_task ok failed t = Some (Inl e, replicate (n + 3) Poll))"
proof (intro conjI impI)
  assume a: "t n = Inl e"
  then have "\<not> pending (t n)" by simp
  from wait_for_task_first [where t = t and n = n, OF assms this] a
  show "wait_for_task ok failed t = Some (Inl e, replicate (Suc n) Poll)" by simp
next
  assume a: "\<not> pending (t n) \<and> (\<exists>i. t n = Inr i) \<and> t (Suc n) = Inl e"
  then have np: "\<not> pending (t n)" by simp
  from wait_for_task_first [where t = t and n = n, OF assms np] a
  show "wait_for_task ok failed t = Some (Inl e, replicate (n + 2) Poll)"
    by (auto simp: report_task_def)
next
  assume a: "\<not> pending (t n) \<and> (\<exists>i. t n = Inr i) \<and>
      (\<exists>i'. t (Suc n) = Inr i' \<and> state i' \<noteq> State_success) \<and> t (n + 2) = Inl e"
  then have np: "\<not> pending (t n)" by simp
  from wait_for_task_first [where t = t and n = n, OF assms np] a
  show "wait_for_task ok failed t = Some (Inl e, replicate (n + 3) Poll)"
    by (auto simp: report_task_def numeral_3_eq_3)
qed

theorem wait_surfaces_read_error_witness:
  "wait_for_task ''done'' ''failed: ''
     (task_of [info State_running None, info State_running None, Inl (Fault ''connection reset'')]
        (info State_success None))
   = Some (Inl (Fault ''connection reset''), [Poll, Poll, Poll])
   \<and> wait_for_task ''done'' ''failed: ''
     (task_of [info State_running None, info State_success None, Inl (Fault ''connection reset'')]
        (info State_success None))
   = Some (Inl (Fault ''connection reset''), [Poll, Poll, Poll])
   \<and> wait_for_task ''done'' ''failed: ''
     (task_of [info State_error (Some ''no space''), info State_error (Some ''no space''),
               Inl (Fault ''connection reset'')]
        (info State_success None))
   = Some (Inl (Fault ''connection reset''), [Poll, Poll, Poll])"
proof -
  let ?f = "Inl (Fault ''connection reset'') :: exn + task_info"
  let ?t1 = "task_of [info State_running None, info State_running None, ?f] (info State_success None)"
  let ?t2 = "task_of [info State_running None, info State_success None, ?f] (info State_success None)"
  let ?t3 = "task_of [info State_error (Some ''no space''), info State_error (Some ''no space''), ?f]
               (info State_success None)"
  have p1: "\<And>j. j < 2 \<Longrightarrow> pending (?t1 j)"
    by (auto simp: task_of_def info_def less_Suc_eq numeral_2_eq_2)
  have p2: "\<And>j. j < 1 \<Longrightarrow> pending (?t2 j)"
    by (auto simp: task_of_def info_def)
  have p3: "\<And>j. j < 0 \<Longrightarrow> pending (?t3 j)" by simp
  have c1: "?t1 2 = Inl (Fault ''connection reset'')" by (simp add: task_of_def)
  have c2: "\<not> pending (?t2 1) \<and> (\<exists>i. ?t2 1 = Inr i) \<and> ?t2 (Suc 1) = Inl (Fault ''connection reset'')"
    by (simp add: task_of_def info_def)
  have c3: "\<not> pending (?t3 0) \<and> (\<exists>i. ?t3 0 = Inr i) \<and>
      (\<exists>i'. ?t3 (Suc 0) = Inr i' \<and> state i' \<noteq> State_success) \<and> ?t3 (0 + 2) = Inl (Fault ''connection reset'')"
    by (simp add: task_of_def info_def)
  from wait_surfaces_read_error [where t = ?t1 and n = 2 and e = "Fault ''connection reset''"
      and ok = "''done''" and failed = "''failed: ''", OF p1] c1
  have r1: "wait_for_task ''done'' ''failed: '' ?t1 = Some (Inl (Fault ''connection reset''), [Poll, Poll, Poll])"
    by (simp add: numeral_eq_Suc)
  from wait_surfaces_read_error [where t = ?t2 and n = 1 and e = "Fault ''connection reset''"
      and ok = "''done''" and failed = "''failed: ''", OF p2] c2
  have r2: "wait_for_task ''done'' ''failed: '' ?t2 = Some (Inl (Fault ''connection reset''), [Poll, Poll, Poll])"
    by (simp add: numeral_eq_Suc)
  from wait_surfaces_read_error [where t = ?t3 and n = 0 and e = "Fault ''connection reset''"
      and ok = "''done''" and failed = "''failed: ''", OF p3] c3
  have r3: "wait_for_task ''done'' ''failed: '' ?t3 = Some (Inl (Fault ''connection reset''), [Poll, Poll, Poll])"
    by (simp add: numeral_eq_Suc)
  from r1 r2 r3 show ?thesis by simp
qed

text \<open>
  At the call site in \<open>create_vm\<close> the wait runs inside the \<open>try\<close>: an exception
  raised by a read in the loop reaches the handler, which prints it, and the function
  returns \<open>None\<close> without reading the task again.
\<close>

lemma create_vm_read_error:
  assumes "\<not> vm_exists si n" and "childEntity si = dc # dcs" and "hostFolder dc = pool # pools"
    and "datastore_view si = ds # dss"
    and "c = CreateVM_Task (vmFolder dc) \<lparr>name = n, memoryMB = 128, numCPUs = 1,
               guestId = ''otherGuest'', vmPathName = ''['' @ ds @ '']''\<rparr> pool"
    and "submit si c = Inr task"
    and "\<And>j. j < k \<Longrightarrow> pending (task j)" and "task k = Inl e"
  shows "create_vm si n =
     Some (PyNone, [Print (check_mark @ '' Found datastore: '' @ ds), Print (''Creating VM: '' @ n), Call c]
                   @ replicate (Suc k) Poll
                   @ [Print (cross_mark @ '' Error during VM creation: '' @ str_of_exn e)])"
proof -
  have "\<not> pending (task k)" using assms(8) by simp
  from wait_for_task_first [where t = task and n = k, OF assms(7) this]
  have "\<And>ok failed. wait_for_task ok failed task = Some (Inl e, replicate (Suc k) Poll)"
    using assms(8) by simp
  then show ?thesis
    using assms(1-6)
    by (simp add: create_vm_def create_vm_try_def get_first_datastore_def Let_def)
qed

text \<open>
  C4 (as amended). The wait takes no maximum duration and has no timeout: it returns
  nothing at all exactly when every read of the task reports, without raising, a state
  that is neither success nor error. In every other case it returns.
\<close>

theorem wait_returns_iff_settled:
  "(wait_for_task ok failed t = None) = (\<forall>j. pending (t j))"
proof
  assume none: "wait_for_task ok failed t = None"
  show "\<forall>j. pending (t j)"
  proof (rule ccontr)
    assume "\<not> (\<forall>j. pending (t j))"
    then obtain k where nk: "\<not> pending (t k)" by blast
    define m where "m = (LEAST j. \<not> pending (t j))"
    have nm: "\<not> pending (t m)" unfolding m_def using nk by (rule LeastI)
    have pm: "\<And>j. j < m \<Longrightarrow> pending (t j)"
      unfolding m_def using not_less_Least by blast
    from wait_for_task_first [where t = t and n = m and ok = ok and failed = failed, OF pm nm] none
    show False by (auto split: sum.splits prod.splits)
  qed
next
  assume all: "\<forall>j. pending (t j)"
  have "wait_loop t 0 = None"
  proof (cases "wait_loop t 0")
    case (Some y)
    obtain r m where "y = (r, m)" by (cases y)
    with Some wait_loop_returns(2) [of t 0 r m] all show ?thesis by simp
  qed simp
  then show "wait_for_task ok failed t = None" by (simp add: wait_for_task_def)
qed

theorem wait_returns_iff_settled_witness:
  "wait_for_task ''done'' ''failed: '' (task_of [info State_queued None] (info State_running None)) = None"
proof -
  let ?t = "task_of [info State_queued None] (info State_running None)"
  have "\<forall>j. pending (?t j)" by (auto simp: task_of_def info_def)
  then show ?thesis using wait_returns_iff_settled [of "''done''" "''failed: ''" ?t] by simp
qed

text \<open>
  C4 as stated fails: on a task that stays running, the wait does not return, with a
  timeout or otherwise.
\<close>

theorem wait_no_timeout:
  "wait_for_task ''done'' ''failed: '' (task_of [] (info State_running None)) = None"
proof -
  let ?t = "task_of [] (info State_running None)"
  have "wait_loop ?t 0 = None"
  proof (cases "wait_loop ?t 0")
    case (Some y)
    obtain r m where "y = (r, m)" by (cases y)
    with Some wait_loop_returns(2) [of ?t 0 r m] show ?thesis by (simp add: task_of_def info_def)
  qed simp
  then show ?thesis by (simp add: wait_for_task_def)
qed

text \<open>
  C5 (as amended). A wait that returns has never slept: what it has done is a run of
  reads of the task, one straight after the other, followed by at most one printed
  line. With two reads or more, two of them are next to each other.
\<close>

theorem wait_never_sleeps:
  assumes "wait_for_task ok failed t = Some (r, tr)"
  shows "Sleep \<notin> set tr \<and> (\<exists>p out. tr = replicate p Poll @ out \<and> (out = [] \<or> (\<exists>s. out = [Print s])))
         \<and> (2 \<le> count_list tr Poll \<longrightarrow> hot_spin tr)"
proof -
  from wait_for_task_shape [OF assms] obtain p out
    where tr: "tr = replicate p Poll @ out" and out: "out = [] \<or> (\<exists>s. out = [Print s])" by blast
  have "Sleep \<notin> set tr" using tr out by auto
  moreover have "Poll \<notin> set out" using out by auto
  then have "count_list tr Poll = p" unfolding tr by (rule count_list_polls)
  then have "2 \<le> count_list tr Poll \<longrightarrow> hot_spin tr" unfolding tr by (auto intro: hot_spin_polls)
  ultimately show ?thesis using tr out by blast
qed

theorem wait_never_sleeps_witness:
  "wait_for_task ''done'' ''failed: '' (task_of [info State_running None] (info State_success None))
     = Some (Inr (), [Poll, Poll, Poll, Print ''done''])
   \<and> Sleep \<notin> set [Poll, Poll, Poll, Print ''done'']
   \<and> hot_spin [Poll, Poll, Poll, Print ''done'']"
proof -
  let ?t = "task_of [info State_running None] (info State_success None)"
  have a: "wait_for_task ''done'' ''failed: '' ?t = Some (Inr (), [Poll, Poll, Poll, Print ''done''])"
    by (simp add: wait_for_task_def report_task_def task_of_def info_def wait_loop.simps)
  have b: "2 \<le> count_list [Poll, Poll, Poll, Print ''done''] Poll" by simp
  show ?thesis using a b wait_never_sleeps [OF a] by blast
qed

text \<open>
  C5 as stated fails: on a task that is running at the first read and has succeeded
  at the second, the three reads of the wait follow each other with nothing between
  them.
\<close>

theorem wait_spins_between_polls:
  "wait_for_task ''done'' ''failed: '' (task_of [info State_running None] (info State_success None))
     = Some (Inr (), [Poll, Poll, Poll, Print ''done''])
   \<and> hot_spin [Poll, Poll, Poll, Print ''done'']"
  by (simp add: wait_for_task_def report_task_def task_of_def info_def wait_loop.simps)

section \<open>Properties of the operations\<close>

lemma vm_exists_for_find: "vm_exists_for n vms = (find (\<lambda>u. vm_name u = n) vms \<noteq> None)"
  by (induction vms) simp_all

lemma control_vm_power_for_found:
  "find (\<lambda>u. vm_name u = n) vms = Some v \<Longrightarrow>
   control_vm_power_for si n action vms =
     (case power_try si v n action of
        (None, tr) \<Rightarrow> (PyNone, tr)
      | (Some e, tr) \<Rightarrow>
          (PyNone, tr @ [Print (cross_mark @ '' Failed to '' @ action_value action @ '' VM ''
                                 @ quoted n @ '': '' @ str_of_exn e)]))"
  by (induction vms) (auto split: if_splits)

lemma control_vm_power_for_missing:
  "find (\<lambda>u. vm_name u = n) vms = None \<Longrightarrow>
   control_vm_power_for si n action vms =
     (PyNone, [Print (cross_mark @ '' VM '' @ quoted n @ '' not found.'')])"
  by (induction vms) (auto split: if_splits)

lemma control_vm_power_for_returns_none: "fst (control_vm_power_for si n action vms) = PyNone"
  by (induction vms) (auto split: prod.splits option.splits)

lemma take_snapshot_for_returns_none:
  "take_snapshot_for si n sn d vms = Some y \<Longrightarrow> fst y = PyNone"
  by (induction vms) (auto simp: Let_def split: if_splits sum.splits option.splits prod.splits)

lemma take_snapshot_for_missing:
  "find (\<lambda>u. vm_name u = n) vms = None \<Longrightarrow>
   take_snapshot_for si n sn d vms =
     Some (PyNone, [Print (cross_mark @ '' VM '' @ quoted n @ '' not found.'')])"
  by (induction vms) (auto split: if_splits)

text \<open>
  C8. When a machine of the requested name is in the inventory, \<open>create_vm\<close> returns
  \<open>None\<close> after printing one line: it issues no call to the platform, so it submits
  no creation and nothing it does can change the inventory.
\<close>

theorem create_vm_existing_skips:
  assumes "vm_exists si n"
  shows "create_vm si n =
           Some (PyNone, [Print (warning_sign @ '' VM '' @ quoted n @ '' already exists. Skipping creation.'')])
         \<and> map_option (calls_of \<circ> snd) (create_vm si n) = Some []"
  using assms by (simp add: create_vm_def create_vm_try_def)

theorem create_vm_existing_skips_witness:
  "vm_exists demo_si ''Shital_TestVM''
   \<and> create_vm demo_si ''Shital_TestVM'' =
       Some (PyNone, [Print (warning_sign @ '' VM 'Shital_TestVM' already exists. Skipping creation.'')])"
proof -
  have a: "vm_exists demo_si ''Shital_TestVM''"
    by (simp add: vm_exists_def demo_si_def vm_on_def)
  show ?thesis using a create_vm_existing_skips [OF a] by (simp add: quoted_def)
qed

text \<open>
  C10. \<open>v\<close> is the machine \<open>control_vm_power\<close> finds, the first of that name in the
  inventory. Asked to power on a machine that is powered on, the function prints one
  line and returns; it issues no call. So does it when asked to power off a machine
  that is powered off.
\<close>

theorem control_vm_power_no_redundant_call:
  assumes "find (\<lambda>u. vm_name u = n) (vm_view si) = Some v"
  shows "(powerState v = poweredOn \<longrightarrow>
            control_vm_power si n POWER_ON =
              (PyNone, [Print (warning_sign @ '' VM '' @ quoted n @ '' is already powered on.'')]))
       \<and> (powerState v = poweredOff \<longrightarrow>
            control_vm_power si n POWER_OFF =
              (PyNone, [Print (warning_sign @ '' VM '' @ quoted n @ '' is already powered off.'')]))"
  using control_vm_power_for_found [OF assms]
  by (simp add: control_vm_power_def power_try_def)

theorem control_vm_power_no_redundant_call_witness:
  "control_vm_power demo_si ''Shital_TestVM'' POWER_ON =
     (PyNone, [Print (warning_sign @ '' VM 'Shital_TestVM' is already powered on.'')])
   \<and> control_vm_power demo_si ''Shital_Test_snapshot_VM'' POWER_OFF =
     (PyNone, [Print (warning_sign @ '' VM 'Shital_Test_snapshot_VM' is already powered off.'')])"
proof -
  have a: "find (\<lambda>u. vm_name u = ''Shital_TestVM'') (vm_view demo_si) = Some vm_on"
    by (simp add: demo_si_def vm_on_def)
  have b: "find (\<lambda>u. vm_name u = ''Shital_Test_snapshot_VM'') (vm_view demo_si) = Some vm_off"
    by (simp add: demo_si_def vm_on_def vm_off_def)
  show ?thesis
    using control_vm_power_no_redundant_call [OF a] control_vm_power_no_redundant_call [OF b]
    by (simp add: quoted_def vm_on_def vm_off_def)
qed

lemma take_snapshot_for_found:
  "find (\<lambda>u. vm_name u = n) vms = Some v \<Longrightarrow>
   take_snapshot_for si n sn d vms =
     (let c = CreateSnapshot_Task v sn d False False;
          tr = [Print (camera_flash @ '' Taking snapshot of VM: '' @ n), Call c]
      in case submit si c of
           Inl e \<Rightarrow>
             Some (PyNone, tr @ [Print (cross_mark @ '' Failed to take snapshot: '' @ str_of_exn e)])
         | Inr task \<Rightarrow>
             (case wait_for_task
                     (check_mark @ '' Snapshot '' @ quoted sn @ '' created successfully.'')
                     (cross_mark @ '' Snapshot creation failed: '') task of
                None \<Rightarrow> None
              | Some (Inl e, w) \<Rightarrow>
                  Some (PyNone, tr @ w @
                          [Print (cross_mark @ '' Failed to take snapshot: '' @ str_of_exn e)])
              | Some (Inr u, w) \<Rightarrow> Some (PyNone, tr @ w)))"
  by (induction vms) (auto split: if_splits)

text \<open>
  C7. \<open>control_vm_power\<close> returns \<open>None\<close> on every path, and so does
  \<open>take_snapshot\<close> whenever it returns: the caller cannot tell from the value whether
  the machine was missing or the operation failed. Only what is printed differs.
  A missing machine gives, in both functions, the single line saying it was not found
  and no call. A failed operation on the machine found (\<open>v\<close>, the first of that name)
  gives the line of the attempt, the call, and then the line saying what failed:
  in \<open>control_vm_power\<close>, for each action, when the call raises; in \<open>take_snapshot\<close>
  when the call raises, when a read of the task raises during the wait (after the reads
  \<open>w\<close> made until then), and when the task ends in the error state with the fault
  message \<open>reason\<close> after \<open>k\<close> reads of a state that is neither success nor error.
\<close>

theorem not_found_and_failed_return_none:
  "fst (control_vm_power si n action) = PyNone
   \<and> (\<forall>y. take_snapshot si n sn d = Some y \<longrightarrow> fst y = PyNone)
   \<and> (\<not> vm_exists si n \<longrightarrow>
        control_vm_power si n action =
          (PyNone, [Print (cross_mark @ '' VM '' @ quoted n @ '' not found.'')])
        \<and> take_snapshot si n sn d =
          Some (PyNone, [Print (cross_mark @ '' VM '' @ quoted n @ '' not found.'')]))
   \<and> (\<forall>v e tr. find (\<lambda>u. vm_name u = n) (vm_view si) = Some v \<and> power_try si v n action = (Some e, tr) \<longrightarrow>
        control_vm_power si n action =
          (PyNone, tr @ [Print (cross_mark @ '' Failed to '' @ action_value action @ '' VM ''
                                 @ quoted n @ '': '' @ str_of_exn e)]))
   \<and> (\<forall>v e. find (\<lambda>u. vm_name u = n) (vm_view si) = Some v \<and> powerState v \<noteq> poweredOn
          \<and> submit si (PowerOn v) = Inl e \<longrightarrow>
        control_vm_power si n POWER_ON =
          (PyNone, [Print (electric_plug @ '' Powering ON VM: '' @ n), Call (PowerOn v),
                    Print (cross_mark @ '' Failed to power_on VM '' @ quoted n @ '': '' @ str_of_exn e)]))
   \<and> (\<forall>v e. find (\<lambda>u. vm_name u = n) (vm_view si) = Some v \<and> powerState v \<noteq> poweredOff
          \<and> submit si (PowerOff v) = Inl e \<longrightarrow>
        control_vm_power si n POWER_OFF =
          (PyNone, [Print (power_symbol @ '' Powering OFF VM: '' @ n), Call (PowerOff v),
                    Print (cross_mark @ '' Failed to power_off VM '' @ quoted n @ '': '' @ str_of_exn e)]))
   \<and> (\<forall>v e. find (\<lambda>u. vm_name u = n) (vm_view si) = Some v \<and> powerState v = poweredOn
          \<and> submit si (PowerOff v) = Inl e \<longrightarrow>
        control_vm_power si n REBOOT =
          (PyNone, [Print (reboot_arrows @ '' Rebooting VM: '' @ n), Call (PowerOff v),
                    Print (cross_mark @ '' Failed to reboot VM '' @ quoted n @ '': '' @ str_of_exn e)]))
   \<and> (\<forall>v e task. find (\<lambda>u. vm_name u = n) (vm_view si) = Some v \<and> powerState v = poweredOn
          \<and> submit si (PowerOff v) = Inr task \<and> submit si (PowerOn v) = Inl e \<longrightarrow>
        control_vm_power si n REBOOT =
          (PyNone, [Print (reboot_arrows @ '' Rebooting VM: '' @ n), Call (PowerOff v), Call (PowerOn v),
                    Print (cross_mark @ '' Failed to reboot VM '' @ quoted n @ '': '' @ str_of_exn e)]))
   \<and> (\<forall>v e. find (\<lambda>u. vm_name u = n) (vm_view si) = Some v
          \<and> submit si (CreateSnapshot_Task v sn d False False) = Inl e \<longrightarrow>
        take_snapshot si n sn d =
          Some (PyNone, [Print (camera_flash @ '' Taking snapshot of VM: '' @ n),
                         Call (CreateSnapshot_Task v sn d False False),
                         Print (cross_mark @ '' Failed to take snapshot: '' @ str_of_exn e)]))
   \<and> (\<forall>v task e w. find (\<lambda>u. vm_name u = n) (vm_view si) = Some v
          \<and> submit si (CreateSnapshot_Task v sn d False False) = Inr task
          \<and> wait_for_task (check_mark @ '' Snapshot '' @ quoted sn @ '' created successfully.'')
                (cross_mark @ '' Snapshot creation failed: '') task = Some (Inl e, w) \<longrightarrow>
        take_snapshot si n sn d =
          Some (PyNone, [Print (camera_flash @ '' Taking snapshot of VM: '' @ n),
                         Call (CreateSnapshot_Task v sn d False False)] @ w @
                        [Print (cross_mark @ '' Failed to take snapshot: '' @ str_of_exn e)]))
   \<and> (\<forall>v task k reason. find (\<lambda>u. vm_name u = n) (vm_view si) = Some v
          \<and> submit si (CreateSnapshot_Task v sn d False False) = Inr task
          \<and> (\<forall>j<k. pending (task j))
          \<and> (\<forall>j. k \<le> j \<and> j \<le> k + 2 \<longrightarrow> task j = info State_error (Some reason)) \<longrightarrow>
        take_snapshot si n sn d =
          Some (PyNone, [Print (camera_flash @ '' Taking snapshot of VM: '' @ n),
                         Call (CreateSnapshot_Task v sn d False False)] @ replicate (k + 3) Poll @
                        [Print (cross_mark @ '' Snapshot creation failed: '' @ reason)]))"
proof -
  have ret: "fst (control_vm_power si n action) = PyNone
      \<and> (\<forall>y. take_snapshot si n sn d = Some y \<longrightarrow> fst y = PyNone)"
    by (auto simp: control_vm_power_def take_snapshot_def control_vm_power_for_returns_none
        dest: take_snapshot_for_returns_none)
  have missing: "\<not> vm_exists si n \<longrightarrow>
        control_vm_power si n action =
          (PyNone, [Print (cross_mark @ '' VM '' @ quoted n @ '' not found.'')])
        \<and> take_snapshot si n sn d =
          Some (PyNone, [Print (cross_mark @ '' VM '' @ quoted n @ '' not found.'')])"
    by (simp add: control_vm_power_def take_snapshot_def vm_exists_def vm_exists_for_find
        control_vm_power_for_missing take_snapshot_for_missing)
  have power: "\<And>a v. find (\<lambda>u. vm_name u = n) (vm_view si) = Some v \<Longrightarrow>
      control_vm_power si n a =
        (case power_try si v n a of
           (None, tr) \<Rightarrow> (PyNone, tr)
         | (Some e, tr) \<Rightarrow>
             (PyNone, tr @ [Print (cross_mark @ '' Failed to '' @ action_value a @ '' VM ''
                                    @ quoted n @ '': '' @ str_of_exn e)]))"
    by (simp add: control_vm_power_def control_vm_power_for_found)
  have snap: "\<And>v. find (\<lambda>u. vm_name u = n) (vm_view si) = Some v \<Longrightarrow>
      take_snapshot si n sn d =
        (let c = CreateSnapshot_Task v sn d False False;
             tr = [Print (camera_flash @ '' Taking snapshot of VM: '' @ n), Call c]
         in case submit si c of
              Inl e \<Rightarrow>
                Some (PyNone, tr @ [Print (cross_mark @ '' Failed to take snapshot: '' @ str_of_exn e)])
            | Inr task \<Rightarrow>
                (case wait_for_task
                        (check_mark @ '' Snapshot '' @ quoted sn @ '' created successfully.'')
                        (cross_mark @ '' Snapshot creation failed: '') task of
                   None \<Rightarrow> None
                 | Some (Inl e, w) \<Rightarrow>
                     Some (PyNone, tr @ w @
                             [Print (cross_mark @ '' Failed to take snapshot: '' @ str_of_exn e)])
                 | Some (Inr u, w) \<Rightarrow> Some (PyNone, tr @ w)))"
    by (simp add: take_snapshot_def take_snapshot_for_found)
  have failed: "\<And>task k reason ok pre.
      (\<forall>j<k. pending (task j)) \<Longrightarrow>
      (\<forall>j. k \<le> j \<and> j \<le> k + 2 \<longrightarrow> task j = info State_error (Some reason)) \<Longrightarrow>
      wait_for_task ok pre task = Some (Inr (), replicate (k + 3) Poll @ [Print (pre @ reason)])"
  proof -
    fix task :: task and k reason ok pre
    assume p: "\<forall>j<k. pending (task j)"
      and e: "\<forall>j. k \<le> j \<and> j \<le> k + 2 \<longrightarrow> task j = info State_error (Some reason)"
    have e3: "task k = info State_error (Some reason)" "task (Suc k) = info State_error (Some reason)"
      "task (Suc (Suc k)) = info State_error (Some reason)"
      using e by simp_all
    then have np: "\<not> pending (task k)" by (simp add: info_def)
    have pk: "\<And>j. j < k \<Longrightarrow> pending (task j)" using p by simp
    from wait_for_task_first [where t = task and n = k, OF pk np]
    show "wait_for_task ok pre task = Some (Inr (), replicate (k + 3) Poll @ [Print (pre @ reason)])"
      using e3 by (simp add: report_task_def info_def numeral_3_eq_3)
  qed
  show ?thesis
    apply (intro conjI allI impI)
    subgoal using ret by simp
    subgoal using ret by simp
    subgoal using missing by simp
    subgoal using missing by simp
    subgoal using power by simp
    subgoal using power by (simp add: power_try_def)
    subgoal using power by (simp add: power_try_def)
    subgoal using power by (simp add: power_try_def)
    subgoal using power by (simp add: power_try_def)
    subgoal using snap by simp
    subgoal using snap by simp
    subgoal for v task k reason using snap [of v] failed [of k task reason] by simp
    done
qed

theorem not_found_and_failed_return_none_witness:
  "control_vm_power demo_si ''Clone_shitalVM'' POWER_OFF =
     (PyNone, [Print (cross_mark @ '' VM 'Clone_shitalVM' not found.'')])
   \<and> control_vm_power demo_si ''Shital_TestVM'' POWER_OFF =
     (PyNone, [Print (power_symbol @ '' Powering OFF VM: Shital_TestVM''), Call (PowerOff vm_on),
               Print (cross_mark @ '' Failed to power_off VM 'Shital_TestVM': connection refused'')])
   \<and> take_snapshot demo_si ''Clone_shitalVM'' ''InitialSnap'' ''Snapshot created by script'' =
     Some (PyNone, [Print (cross_mark @ '' VM 'Clone_shitalVM' not found.'')])
   \<and> take_snapshot demo_si ''Shital_TestVM'' ''InitialSnap'' ''Snapshot created by script'' =
     Some (PyNone, [Print (camera_flash @ '' Taking snapshot of VM: Shital_TestVM''),
                    Call (CreateSnapshot_Task vm_on ''InitialSnap'' ''Snapshot created by script'' False False),
                    Poll, Poll, Poll, Poll,
                    Print (cross_mark @ '' Snapshot creation failed: insufficient resources'')])
   \<and> take_snapshot demo_si_down ''Shital_TestVM'' ''InitialSnap'' ''Snapshot created by script'' =
     Some (PyNone, [Print (camera_flash @ '' Taking snapshot of VM: Shital_TestVM''),
                    Call (CreateSnapshot_Task vm_on ''InitialSnap'' ''Snapshot created by script'' False False),
                    Print (cross_mark @ '' Failed to take snapshot: connection refused'')])"
proof -
  let ?sn = "''InitialSnap''" and ?d = "''Snapshot created by script''"
  let ?task = "task_of [info State_running None] (info State_error (Some ''insufficient resources''))"
  have nf: "\<not> vm_exists demo_si ''Clone_shitalVM''"
    by (simp add: vm_exists_def demo_si_def vm_on_def vm_off_def)
  have f: "find (\<lambda>u. vm_name u = ''Shital_TestVM'') (vm_view demo_si) = Some vm_on"
    by (simp add: demo_si_def vm_on_def)
  have fd: "find (\<lambda>u. vm_name u = ''Shital_TestVM'') (vm_view demo_si_down) = Some vm_on"
    by (simp add: demo_si_down_def vm_on_def)
  have off: "powerState vm_on \<noteq> poweredOff" "submit demo_si (PowerOff vm_on) = Inl (Fault ''connection refused'')"
    by (simp_all add: demo_si_def vm_on_def)
  have sub: "submit demo_si (CreateSnapshot_Task vm_on ?sn ?d False False) = Inr ?task"
    by (simp add: demo_si_def)
  have subd: "submit demo_si_down (CreateSnapshot_Task vm_on ?sn ?d False False) = Inl (Fault ''connection refused'')"
    by (simp add: demo_si_down_def)
  have p: "\<forall>j<1. pending (?task j)" by (simp add: task_of_def info_def)
  have e: "\<forall>j. 1 \<le> j \<and> j \<le> 1 + 2 \<longrightarrow> ?task j = info State_error (Some ''insufficient resources'')"
    by (simp add: task_of_def)
  note t1 = not_found_and_failed_return_none [of demo_si "''Clone_shitalVM''" POWER_OFF ?sn ?d]
  note t2 = not_found_and_failed_return_none [of demo_si "''Shital_TestVM''" POWER_OFF ?sn ?d]
  note t3 = not_found_and_failed_return_none [of demo_si_down "''Shital_TestVM''" POWER_OFF ?sn ?d]
  have a: "control_vm_power demo_si ''Clone_shitalVM'' POWER_OFF =
        (PyNone, [Print (cross_mark @ '' VM 'Clone_shitalVM' not found.'')])
      \<and> take_snapshot demo_si ''Clone_shitalVM'' ?sn ?d =
        Some (PyNone, [Print (cross_mark @ '' VM 'Clone_shitalVM' not found.'')])"
    using t1 nf by (simp add: quoted_def)
  have b: "control_vm_power demo_si ''Shital_TestVM'' POWER_OFF =
     (PyNone, [Print (power_symbol @ '' Powering OFF VM: Shital_TestVM''), Call (PowerOff vm_on),
               Print (cross_mark @ '' Failed to power_off VM 'Shital_TestVM': connection refused'')])"
  proof -
    from t2 have "\<forall>v e. find (\<lambda>u. vm_name u = ''Shital_TestVM'') (vm_view demo_si) = Some v \<and> powerState v \<noteq> poweredOff
          \<and> submit demo_si (PowerOff v) = Inl e \<longrightarrow>
        control_vm_power demo_si ''Shital_TestVM'' POWER_OFF =
          (PyNone, [Print (power_symbol @ '' Powering OFF VM: '' @ ''Shital_TestVM''), Call (PowerOff v),
                    Print (cross_mark @ '' Failed to power_off VM '' @ quoted ''Shital_TestVM'' @ '': '' @ str_of_exn e)])"
      by blast
    from this [rule_format, of vm_on "Fault ''connection refused''"] f off
    show ?thesis by (simp add: quoted_def)
  qed
  have c: "take_snapshot demo_si ''Shital_TestVM'' ?sn ?d =
     Some (PyNone, [Print (camera_flash @ '' Taking snapshot of VM: Shital_TestVM''),
                    Call (CreateSnapshot_Task vm_on ?sn ?d False False),
                    Poll, Poll, Poll, Poll,
                    Print (cross_mark @ '' Snapshot creation failed: insufficient resources'')])"
  proof -
    from t2 have "\<forall>v task k reason. find (\<lambda>u. vm_name u = ''Shital_TestVM'') (vm_view demo_si) = Some v
          \<and> submit demo_si (CreateSnapshot_Task v ?sn ?d False False) = Inr task
          \<and> (\<forall>j<k. pending (task j))
          \<and> (\<forall>j. k \<le> j \<and> j \<le> k + 2 \<longrightarrow> task j = info State_error (Some reason)) \<longrightarrow>
        take_snapshot demo_si ''Shital_TestVM'' ?sn ?d =
          Some (PyNone, [Print (camera_flash @ '' Taking snapshot of VM: '' @ ''Shital_TestVM''),
                         Call (CreateSnapshot_Task v ?sn ?d False False)] @ replicate (k + 3) Poll @
                        [Print (cross_mark @ '' Snapshot creation failed: '' @ reason)])"
      by blast
    from this [rule_format, of vm_on ?task 1 "''insufficient resources''"] f sub p e
    show ?thesis by (simp add: numeral_eq_Suc)
  qed
  have dd: "take_snapshot demo_si_down ''Shital_TestVM'' ?sn ?d =
     Some (PyNone, [Print (camera_flash @ '' Taking snapshot of VM: Shital_TestVM''),
                    Call (CreateSnapshot_Task vm_on ?sn ?d False False),
                    Print (cross_mark @ '' Failed to take snapshot: connection refused'')])"
  proof -
    from t3 have "\<forall>v e. find (\<lambda>u. vm_name u = ''Shital_TestVM'') (vm_view demo_si_down) = Some v
          \<and> submit demo_si_down (CreateSnapshot_Task v ?sn ?d False False) = Inl e \<longrightarrow>
        take_snapshot demo_si_down ''Shital_TestVM'' ?sn ?d =
          Some (PyNone, [Print (camera_flash @ '' Taking snapshot of VM: '' @ ''Shital_TestVM''),
                         Call (CreateSnapshot_Task v ?sn ?d False False),
                         Print (cross_mark @ '' Failed to take snapshot: '' @ str_of_exn e)])"
      by blast
    from this [rule_format, of vm_on "Fault ''connection refused''"] fd subd
    show ?thesis by simp
  qed
  from a b c dd show ?thesis by simp
qed

lemma dashes_unfold: "replicate 40 (CHR ''-'') = CHR ''-'' # replicate 39 (CHR ''-'')"
  by (simp add: numeral_eq_Suc)

lemma events_printed_lines [simp]: "events_printed (event_lines ev a) = 1"
  by (simp add: events_printed_def event_lines_def dashes_unfold)

lemma events_printed_append [simp]: "events_printed (xs @ ys) = events_printed xs + events_printed ys"
  by (simp add: events_printed_def)

lemma events_for_count:
  "fst (events_for mx evs count) = count + int (events_printed (snd (events_for mx evs count)))"
  by (induction mx evs count rule: events_for.induct)
     (auto simp: events_printed_def[of "[]"] split: option.splits prod.splits)

lemma events_for_bound:
  "fst (events_for mx evs count) \<le> max mx (count + 1) \<or> fst (events_for mx evs count) = count"
  by (induction mx evs count rule: events_for.induct)
     (auto split: option.splits prod.splits)

lemma dashes_neq [simp]:
  "CHR ''-'' \<noteq> c \<Longrightarrow> (c # s = replicate 40 (CHR ''-'')) = False"
  "([] = replicate 40 (CHR ''-'')) = False"
  by (auto simp: dashes_unfold)

lemma monitor_events_bound:
  "events_printed (snd (monitor_recent_vm_events si mx)) \<le> nat (max 1 mx)"
proof (cases si)
  case None
  then show ?thesis by (simp add: monitor_recent_vm_events_def events_printed_def)
next
  case (Some s)
  show ?thesis
  proof (cases "QueryEvents s")
    case (Inl e)
    with Some show ?thesis
      by (simp add: monitor_recent_vm_events_def events_printed_def cross_mark_def Let_def)
  next
    case (Inr evs)
    obtain c tr where ef: "events_for mx evs 0 = (c, tr)" by (cases "events_for mx evs 0")
    have c: "c = int (events_printed tr)" using events_for_count [of mx evs 0] ef by simp
    have "c \<le> max mx 1 \<or> c = 0" using events_for_bound [of mx evs 0] ef by simp
    with c have b: "events_printed tr \<le> nat (max 1 mx)" by auto
    have "events_printed (snd (monitor_recent_vm_events si mx)) = events_printed tr"
      using Some Inr ef
      by (simp add: monitor_recent_vm_events_def Let_def events_printed_def)
    with b show ?thesis by simp
  qed
qed


end
